theory Spec2Isabelle
  imports Complex_Main "HOL-Library.Sublist" "HOL-Library.Product_Lexorder"
begin

section \<open>Text primitives\<close>

text \<open>
  Python strings are sequences of code points. They are modelled as \<open>string\<close>, whose
  characters are the code points below 256 (ASCII and the Latin-1 supplement); code
  points above U+00FF are outside the model. The character classes below are the ones
  Python 3 uses on that range.
\<close>

definition lower_char :: "char \<Rightarrow> char" where
  \<comment> \<open>\<open>str.lower\<close> on one code point: A-Z and the upper-case Latin-1 letters move up by
     32, which sets bit 5 (it is clear in both ranges).\<close>
  "lower_char c =
     (let n = (of_char c :: nat)
      in if (65 \<le> n \<and> n \<le> 90) \<or> (192 \<le> n \<and> n \<le> 222 \<and> n \<noteq> 215)
         then Char (digit0 c) (digit1 c) (digit2 c) (digit3 c) (digit4 c) True (digit6 c) (digit7 c)
         else c)"

definition lower :: "string \<Rightarrow> string" where
  "lower s = map lower_char s"

definition is_space :: "char \<Rightarrow> bool" where
  \<comment> \<open>the regular expression class \<open>\s\<close> on text patterns\<close>
  "is_space c =
     (let n = (of_char c :: nat)
      in (9 \<le> n \<and> n \<le> 13) \<or> (28 \<le> n \<and> n \<le> 32) \<or> n = 133 \<or> n = 160)"

definition is_word :: "char \<Rightarrow> bool" where
  \<comment> \<open>the regular expression class \<open>\w\<close> on text patterns: alphanumeric or underscore\<close>
  "is_word c =
     (let n = (of_char c :: nat)
      in (48 \<le> n \<and> n \<le> 57) \<or> (65 \<le> n \<and> n \<le> 90) \<or> (97 \<le> n \<and> n \<le> 122) \<or> n = 95
         \<or> n = 170 \<or> n = 178 \<or> n = 179 \<or> n = 181 \<or> n = 185 \<or> n = 186
         \<or> (188 \<le> n \<and> n \<le> 190)
         \<or> (192 \<le> n \<and> n \<noteq> 215 \<and> n \<noteq> 247))"

definition is_quote :: "char \<Rightarrow> bool" where
  \<comment> \<open>the class \<open>['"]\<close>\<close>
  "is_quote c = (c = CHR 0x27 \<or> c = CHR 0x22)"

definition is_css_char :: "char \<Rightarrow> bool" where
  \<comment> \<open>the class \<open>[#\.\[\]@\w\-:]\<close>\<close>
  "is_css_char c =
     (c = CHR ''#'' \<or> c = CHR ''.'' \<or> c = CHR ''['' \<or> c = CHR '']'' \<or> c = CHR ''@''
      \<or> is_word c \<or> c = CHR ''-'' \<or> c = CHR '':'')"

fun py_in :: "string \<Rightarrow> string \<Rightarrow> bool" where
  \<comment> \<open>\<open>w in s\<close> on strings: \<open>w\<close> occurs in \<open>s\<close> as a contiguous substring\<close>
  "py_in w [] = (w = [])"
| "py_in w (c # cs) = (prefix w (c # cs) \<or> py_in w cs)"

definition any_in :: "string list \<Rightarrow> string \<Rightarrow> bool" where
  \<comment> \<open>\<open>any(word in s for word in ws)\<close>\<close>
  "any_in ws s = list_ex (\<lambda>word. py_in word s) ws"

function str_replace :: "string \<Rightarrow> string \<Rightarrow> string \<Rightarrow> string" where
  \<comment> \<open>\<open>s.replace(old, new)\<close>: every non-overlapping occurrence, scanning from the left\<close>
  "str_replace [] new s = new @ concat (map (\<lambda>c. c # new) s)"
| "str_replace (a # old) new [] = []"
| "str_replace (a # old) new (c # cs) =
     (if prefix (a # old) (c # cs)
      then new @ str_replace (a # old) new (drop (length old) cs)
      else c # str_replace (a # old) new cs)"
  by pat_completeness auto
termination
  by (relation "measure (\<lambda>(old, new, s). length s)") auto

definition strip :: "string \<Rightarrow> string" where
  \<comment> \<open>\<open>s.strip()\<close>: white space goes from both ends\<close>
  "strip s = rev (dropWhile is_space (rev (dropWhile is_space s)))"

fun join :: "string \<Rightarrow> string list \<Rightarrow> string" where
  \<comment> \<open>\<open>sep.join(xs)\<close>\<close>
  "join sep [] = []"
| "join sep [x] = x"
| "join sep (x # y # ys) = x @ sep @ join sep (y # ys)"

definition dict_get :: "(string \<rightharpoonup> string) \<Rightarrow> string \<Rightarrow> string \<Rightarrow> string" where
  \<comment> \<open>\<open>d.get(key, default)\<close>\<close>
  "dict_get d k dflt = (case d k of None \<Rightarrow> dflt | Some v \<Rightarrow> v)"

fun group_append :: "(string \<times> 'a list) list \<Rightarrow> string \<Rightarrow> 'a \<Rightarrow> (string \<times> 'a list) list" where
  \<comment> \<open>\<open>d[k].append(v)\<close> on a \<open>defaultdict(list)\<close>; the association list keeps the
     dictionary's insertion order, which is its iteration order\<close>
  "group_append [] k v = [(k, [v])]"
| "group_append ((k', vs) # d) k v =
     (if k' = k then (k', vs @ [v]) # d else (k', vs) # group_append d k v)"

definition last_n :: "nat \<Rightarrow> 'a list \<Rightarrow> 'a list" where
  \<comment> \<open>the slice \<open>xs[-n:]\<close> for positive \<open>n\<close>\<close>
  "last_n n xs = drop (length xs - n) xs"

section \<open>Failure classifier\<close>

definition classify_failure :: "string \<Rightarrow> string" where
  "classify_failure error_message =
     (let error_lower = lower error_message
      in if any_in [''timeout'', ''wait'', ''element not found''] error_lower
           then ''timing_issue''
         else if any_in [''selector'', ''locator'', ''element''] error_lower
           then ''element_selector''
         else if any_in [''network'', ''connection'', ''request''] error_lower
           then ''network_issue''
         else if any_in [''assertion'', ''expected'', ''actual''] error_lower
           then ''assertion_failure''
         else if any_in [''permission'', ''access'', ''forbidden''] error_lower
           then ''permission_issue''
         else if any_in [''data'', ''invalid'', ''null''] error_lower
           then ''data_issue''
         else ''unknown'')"

text \<open>
  The classifier as the specification words it: an ordered table of keyword sets and
  kinds, the first row with a keyword occurring in the lower-cased message wins, and
  no row gives \<open>unknown\<close>.
\<close>

definition kind_table :: "(string list \<times> string) list" where
  "kind_table =
     [([''timeout'', ''wait'', ''element not found''], ''timing_issue''),
      ([''selector'', ''locator'', ''element''], ''element_selector''),
      ([''network'', ''connection'', ''request''], ''network_issue''),
      ([''assertion'', ''expected'', ''actual''], ''assertion_failure''),
      ([''permission'', ''access'', ''forbidden''], ''permission_issue''),
      ([''data'', ''invalid'', ''null''], ''data_issue'')]"

fun first_match :: "(string list \<times> string) list \<Rightarrow> string \<Rightarrow> string" where
  "first_match [] s = ''unknown''"
| "first_match ((ws, kind) # rows) s =
     (if (\<exists>w \<in> set ws. sublist w s) then kind else first_match rows s)"

section \<open>Locator extraction\<close>

text \<open>
  \<open>re.search(pattern, message, re.IGNORECASE)\<close> tries every start position from the
  left and returns the first match. Each of the four patterns has at most one match at
  a given start: its repetitions are greedy and the character that must follow a
  repetition is outside the repeated class, so giving characters back never helps.
\<close>

definition match_keyword_quoted :: "string \<Rightarrow> string \<Rightarrow> string option" where
  \<comment> \<open>\<open>keyword\s+['"]([^'"]+)['"]\<close> at the start of \<open>s\<close>, ignoring case; group 1\<close>
  "match_keyword_quoted keyword s =
     (if lower (take (length keyword) s) \<noteq> keyword then None
      else let r1 = drop (length keyword) s;
               r2 = dropWhile is_space r1
           in if takeWhile is_space r1 = [] then None
              else (case r2 of
                      [] \<Rightarrow> None
                    | q # r3 \<Rightarrow>
                        if \<not> is_quote q then None
                        else let g = takeWhile (\<lambda>c. \<not> is_quote c) r3
                             in if g = [] then None
                                else (case dropWhile (\<lambda>c. \<not> is_quote c) r3 of
                                        [] \<Rightarrow> None
                                      | q' # r4 \<Rightarrow> Some g)))"

definition match_quoted_css :: "string \<Rightarrow> string option" where
  \<comment> \<open>\<open>['"]([#\.\[\]@\w\-:]+)['"]\<close> at the start of \<open>s\<close>; group 1\<close>
  "match_quoted_css s =
     (case s of
        [] \<Rightarrow> None
      | q # r \<Rightarrow>
          if \<not> is_quote q then None
          else let g = takeWhile is_css_char r
               in if g = [] then None
                  else (case dropWhile is_css_char r of
                          [] \<Rightarrow> None
                        | q' # r' \<Rightarrow> if is_quote q' then Some g else None))"

fun re_search :: "(string \<Rightarrow> string option) \<Rightarrow> string \<Rightarrow> string option" where
  "re_search m [] = m []"
| "re_search m (c # cs) = (case m (c # cs) of Some g \<Rightarrow> Some g | None \<Rightarrow> re_search m cs)"

definition extract_element_selector :: "string \<Rightarrow> string option" where
  "extract_element_selector error_message =
     (case re_search (match_keyword_quoted ''locator'') error_message of
        Some g \<Rightarrow> Some g
      | None \<Rightarrow>
     (case re_search (match_keyword_quoted ''element'') error_message of
        Some g \<Rightarrow> Some g
      | None \<Rightarrow>
     (case re_search (match_keyword_quoted ''selector'') error_message of
        Some g \<Rightarrow> Some g
      | None \<Rightarrow> re_search match_quoted_css error_message)))"

section \<open>Adaptive engine: data\<close>

text \<open>
  A raw test result is a dictionary; the model keeps its text-valued entries
  (\<open>string \<rightharpoonup> string\<close>), so an absent key is \<open>None\<close>. Time stamps are natural numbers.
  Python's floats are modelled as rationals: the engine only divides, takes a minimum
  and compares them.
\<close>

type_synonym test_result = "string \<rightharpoonup> string"

record TestFailurePattern =
  test_name :: string
  failure_type :: string
  error_message :: string
  element_selector :: "string option"
  timestamp :: nat
  frequency :: int
  ctx :: "(string \<times> string) list"

record AdaptiveRule =
  rule_id :: string
  pattern :: string
  suggested_fix :: string
  confidence :: rat
  success_rate :: rat
  created_at :: nat
  last_applied :: "nat option"

record AdaptiveTestingEngine =
  failure_patterns :: "TestFailurePattern list"
  adaptive_rules :: "AdaptiveRule list"
  min_pattern_frequency :: int
  confidence_threshold :: rat

text \<open>
  What an operation reads from outside the engine: the wall clock, the iteration order
  of a Python set (unspecified by the language) and the answer of the analysis service.
  The service's answer is \<open>None\<close> when the call raises, \<open>Some None\<close> when the reply has
  no \<open>suggested_fix\<close> entry and \<open>Some (Some s)\<close> when it has one.
\<close>

record env =
  now :: nat
  now_stamp :: string
  set_order :: "string list \<Rightarrow> string list"
  analyze_test_failures :: "TestFailurePattern list \<Rightarrow> string option option"

datatype py_error = ZeroDivisionError

definition init_engine :: AdaptiveTestingEngine where
  \<comment> \<open>the constructor when no stored data is found\<close>
  "init_engine =
     \<lparr>failure_patterns = [], adaptive_rules = [],
      min_pattern_frequency = 3, confidence_threshold = 7 / 10\<rparr>"

section \<open>Pattern store\<close>

definition extract_failure_pattern :: "nat \<Rightarrow> test_result \<Rightarrow> TestFailurePattern option" where
  "extract_failure_pattern t test_result =
     (if test_result ''status'' \<noteq> Some ''failed'' then None
      else let msg = dict_get test_result ''error_message'' [];
               name = dict_get test_result ''test_name'' []
           in Some \<lparr>test_name = name,
                    failure_type = classify_failure msg,
                    error_message = msg,
                    element_selector = extract_element_selector msg,
                    timestamp = t,
                    frequency = 1,
                    ctx = [(''browser'', dict_get test_result ''browser'' ''unknown''),
                           (''viewport'', dict_get test_result ''viewport'' ''{}''),
                           (''duration'', dict_get test_result ''duration'' ''0''),
                           (''url'', dict_get test_result ''url'' []),
                           (''screenshot'', dict_get test_result ''screenshot'' [])]\<rparr>)"

fun find_existing_pattern :: "TestFailurePattern list \<Rightarrow> TestFailurePattern \<Rightarrow> nat option" where
  \<comment> \<open>the position of the first stored pattern with the new pattern's identity; the
     source returns a reference to that element\<close>
  "find_existing_pattern [] new_pattern = None"
| "find_existing_pattern (existing # rest) new_pattern =
     (if test_name existing = test_name new_pattern
         \<and> failure_type existing = failure_type new_pattern
         \<and> element_selector existing = element_selector new_pattern
      then Some 0
      else map_option Suc (find_existing_pattern rest new_pattern))"

definition record_test_failure ::
  "nat \<Rightarrow> AdaptiveTestingEngine \<Rightarrow> test_result \<Rightarrow> AdaptiveTestingEngine" where
  "record_test_failure t e test_result =
     (case extract_failure_pattern t test_result of
        None \<Rightarrow> e
      | Some failure_pattern \<Rightarrow>
          (case find_existing_pattern (failure_patterns e) failure_pattern of
             Some i \<Rightarrow>
               (let existing = failure_patterns e ! i
                in e\<lparr>failure_patterns :=
                       (failure_patterns e)
                         [i := existing\<lparr>frequency := frequency existing + 1, timestamp := t\<rparr>]\<rparr>)
           | None \<Rightarrow> e\<lparr>failure_patterns := failure_patterns e @ [failure_pattern]\<rparr>))"

definition identity :: "TestFailurePattern \<Rightarrow> string \<times> string \<times> string option" where
  \<comment> \<open>the identity triple of the specification\<close>
  "identity p = (test_name p, failure_type p, element_selector p)"

section \<open>Rule synthesizer\<close>

fun count_add :: "(string \<times> nat) list \<Rightarrow> string \<Rightarrow> (string \<times> nat) list" where
  \<comment> \<open>one step of \<open>Counter(xs)\<close>: \<open>c[k] += 1\<close>, keys in insertion order\<close>
  "count_add [] k = [(k, 1)]"
| "count_add ((k', n) # c) k = (if k' = k then (k', n + 1) # c else (k', n) # count_add c k)"

fun max_first :: "string \<times> nat \<Rightarrow> (string \<times> nat) list \<Rightarrow> string \<times> nat" where
  \<comment> \<open>\<open>max(items, key=count)\<close>: the first item with the largest count\<close>
  "max_first best [] = best"
| "max_first best (p # ps) = max_first (if snd best < snd p then p else best) ps"

definition truthy_selectors :: "TestFailurePattern list \<Rightarrow> string list" where
  \<comment> \<open>\<open>[p.element_selector for p in patterns if p.element_selector]\<close>: neither absent
     nor empty\<close>
  "truthy_selectors patterns =
     List.map_filter
       (\<lambda>p. case element_selector p of
               None \<Rightarrow> None
             | Some sel \<Rightarrow> if sel = [] then None else Some sel)
       patterns"

definition create_timing_fix_suggestion :: "TestFailurePattern list \<Rightarrow> string" where
  \<comment> \<open>the counter is empty exactly when \<open>common_selectors\<close> is\<close>
  "create_timing_fix_suggestion patterns =
     (let common_selectors = truthy_selectors patterns
      in case foldl count_add [] common_selectors of
           [] \<Rightarrow> ''Add explicit waits and increase default timeout values''
         | p # ps \<Rightarrow>
             ''Add explicit wait for element '' @ [CHR 0x27] @ fst (max_first p ps) @ [CHR 0x27]
               @ '' with increased timeout (30s+)'')"

definition create_selector_fix_suggestion :: "env \<Rightarrow> TestFailurePattern list \<Rightarrow> string" where
  "create_selector_fix_suggestion w patterns =
     (let selectors = truthy_selectors patterns
      in if selectors \<noteq> []
         then ''Update selectors to use more robust locators (data-testid, role-based). Problem selectors: ''
                @ join '', '' (set_order w (take 3 selectors))
         else ''Review element selectors and use more stable locator strategies'')"

definition create_assertion_fix_suggestion :: "env \<Rightarrow> TestFailurePattern list \<Rightarrow> string" where
  "create_assertion_fix_suggestion w patterns =
     (case analyze_test_failures w (take 5 patterns) of
        None \<Rightarrow> ''Review assertion logic, expected values, and test data''
      | Some result \<Rightarrow>
          (case result of
             None \<Rightarrow> ''Review assertion logic and expected values''
           | Some fix \<Rightarrow> fix))"

definition confidence_of_average :: "rat \<Rightarrow> rat" where
  \<comment> \<open>line 194\<close>
  "confidence_of_average avg_frequency = min (avg_frequency / 10) 1"

definition average_frequency :: "TestFailurePattern list \<Rightarrow> rat" where
  \<comment> \<open>lines 192 and 193, for a non-empty group\<close>
  "average_frequency patterns =
     (let total_frequency = sum_list (map frequency patterns)
      in of_int total_frequency / of_nat (length patterns))"

definition create_rule_for_pattern_group ::
  "env \<Rightarrow> string \<Rightarrow> TestFailurePattern list \<Rightarrow> py_error + AdaptiveRule" where
  "create_rule_for_pattern_group w ftype patterns =
     (if length patterns = 0 then Inl ZeroDivisionError
      else Inr \<lparr>rule_id = ftype @ ''_'' @ now_stamp w,
                pattern = ftype,
                suggested_fix =
                  (if ftype = ''timing_issue'' then create_timing_fix_suggestion patterns
                   else if ftype = ''element_selector''
                     then create_selector_fix_suggestion w patterns
                   else if ftype = ''network_issue''
                     then ''Add network retry logic and longer timeouts for network requests''
                   else if ftype = ''assertion_failure''
                     then create_assertion_fix_suggestion w patterns
                   else ''Generic fix for '' @ ftype @ '': Review test logic and add error handling''),
                confidence = confidence_of_average (average_frequency patterns),
                success_rate = 0,
                created_at = now w,
                last_applied = None\<rparr>)"

definition pattern_groups :: "AdaptiveTestingEngine \<Rightarrow> (string \<times> TestFailurePattern list) list" where
  "pattern_groups e =
     foldl (\<lambda>groups p. if min_pattern_frequency e \<le> frequency p
                        then group_append groups (failure_type p) p else groups)
       [] (failure_patterns e)"

fun create_rules ::
  "env \<Rightarrow> rat \<Rightarrow> (string \<times> TestFailurePattern list) list \<Rightarrow> py_error + AdaptiveRule list" where
  \<comment> \<open>the loop of lines 179 to 183, giving the rules it keeps in order; an exception
     would leave the loop, and none occurs on the groups the engine builds, which are
     never empty\<close>
  "create_rules w threshold [] = Inr []"
| "create_rules w threshold ((ftype, patterns) # groups) =
     (case create_rule_for_pattern_group w ftype patterns of
        Inl err \<Rightarrow> Inl err
      | Inr rule \<Rightarrow>
          (case create_rules w threshold groups of
             Inl err \<Rightarrow> Inl err
           | Inr rules \<Rightarrow> Inr (if threshold \<le> confidence rule then rule # rules else rules)))"

definition analyze_patterns_and_create_rules ::
  "env \<Rightarrow> AdaptiveTestingEngine \<Rightarrow> py_error + AdaptiveRule list \<times> AdaptiveTestingEngine" where
  "analyze_patterns_and_create_rules w e =
     (case create_rules w (confidence_threshold e) (pattern_groups e) of
        Inl err \<Rightarrow> Inl err
      | Inr new_rules \<Rightarrow> Inr (new_rules, e\<lparr>adaptive_rules := adaptive_rules e @ new_rules\<rparr>))"

section \<open>Rule applicator\<close>

definition wait_then_click :: string where
  "wait_then_click =
     ''page.wait_for_selector(selector, timeout=30000)'' @ [CHR 0x0A] @ ''        page.click(''"

definition selector_advice :: string where
  "selector_advice =
     ''# ADAPTIVE SUGGESTION: Consider using data-testid selectors for better stability''
       @ [CHR 0x0A]"

definition retry_import :: string where
  "retry_import =
     ''import time'' @ [CHR 0x0A] @ ''from requests.adapters import HTTPAdapter'' @ [CHR 0x0A]
       @ ''from urllib3.util.retry import Retry'' @ [CHR 0x0A]"

definition apply_rule_to_content :: "string \<Rightarrow> AdaptiveRule \<Rightarrow> string \<times> bool" where
  "apply_rule_to_content content rule =
     (if pattern rule = ''timing_issue'' then
        (if \<not> py_in ''page.wait_for_selector'' content \<and> py_in ''click('' content
         then (str_replace ''page.click('' wait_then_click content, True)
         else (content, False))
      else if pattern rule = ''element_selector'' then
        (if \<not> py_in ''data-testid'' content \<and> py_in [CHR 0x22, CHR ''#''] content
         then (selector_advice @ content, True)
         else (content, False))
      else if pattern rule = ''network_issue'' then
        (if py_in ''requests.'' content \<and> \<not> py_in ''retry'' (lower content)
         then (if \<not> py_in (strip retry_import) content
               then (retry_import @ [CHR 0x0A] @ content, True)
               else (content, False))
         else (content, False))
      else (content, False))"

section \<open>Insight aggregator\<close>

record AIInsight =
  category :: string
  title :: string
  description :: string
  severity :: string
  recommendations :: "string list"
  insight_confidence :: rat
  data_points :: "(string \<times> string) list"

definition severity_score :: "string \<Rightarrow> int" where
  "severity_score s =
     (if s = ''critical'' then 4 else if s = ''high'' then 3 else if s = ''medium'' then 2
      else if s = ''low'' then 1 else 1)"

definition insight_key :: "AIInsight \<Rightarrow> int \<times> rat" where
  \<comment> \<open>the sort key of line 130; pairs compare lexicographically\<close>
  "insight_key x = (severity_score (severity x), - insight_confidence x)"

definition sort_reverse :: "('a \<Rightarrow> 'k::linorder) \<Rightarrow> 'a list \<Rightarrow> 'a list" where
  \<comment> \<open>\<open>xs.sort(key=key, reverse=True)\<close>: the list is reversed, sorted by a stable
     ascending sort and reversed again, so equal keys keep their order\<close>
  "sort_reverse key xs = rev (sort_key key (rev xs))"

definition rank_insights :: "AIInsight list \<Rightarrow> AIInsight list" where
  "rank_insights insights = sort_reverse insight_key insights"

type_synonym test_run = "(string \<rightharpoonup> string) list"

definition test_outcomes :: "test_run list \<Rightarrow> (string \<times> string list) list" where
  \<comment> \<open>lines 239 to 245; a run is its \<open>test_details\<close> list\<close>
  "test_outcomes test_history =
     foldl (\<lambda>d test. group_append d (dict_get test ''name'' ''unknown'')
                         (dict_get test ''status'' ''unknown''))
       [] (concat (last_n 20 test_history))"

definition flaky_entry :: "string \<times> string list \<Rightarrow> (string \<times> rat \<times> string list) option" where
  \<comment> \<open>the body of the loop of lines 249 to 262\<close>
  "flaky_entry entry =
     (case entry of (name, outcomes) \<Rightarrow>
        if 5 \<le> length outcomes then
          (let pass_count = count_list outcomes ''passed'';
               fail_count = count_list outcomes ''failed''
           in if 0 < pass_count \<and> 0 < fail_count then
                (let flakiness_score = of_nat (min pass_count fail_count) / of_nat (length outcomes)
                 in if 2 / 10 \<le> flakiness_score then Some (name, flakiness_score, outcomes)
                    else None)
              else None)
        else None)"

definition flaky_tests :: "test_run list \<Rightarrow> (string \<times> rat \<times> string list) list" where
  "flaky_tests test_history = List.map_filter flaky_entry (test_outcomes test_history)"

text \<open>
  The outcomes recorded for one test over the scanned window, as the specification
  words them: the statuses of the entries with that name in the last 20 runs.
\<close>

definition recorded_outcomes :: "test_run list \<Rightarrow> string \<Rightarrow> string list" where
  "recorded_outcomes test_history name =
     map (\<lambda>test. dict_get test ''status'' ''unknown'')
       (filter (\<lambda>test. dict_get test ''name'' ''unknown'' = name)
          (concat (last_n 20 test_history)))"

section \<open>Scenario inputs\<close>

definition search_timeout_message :: string where
  "search_timeout_message = ''Timeout waiting for selector '#search-results'' @ [CHR 0x27]"

definition search_timeout_result :: "string \<Rightarrow> test_result" where
  \<comment> \<open>the failure record of the end-to-end scenario, for a given test name\<close>
  "search_timeout_result name =
     [''status'' \<mapsto> ''failed'', ''error_message'' \<mapsto> search_timeout_message,
      ''test_name'' \<mapsto> name]"

definition search_timeout_pattern :: "string \<Rightarrow> nat \<Rightarrow> int \<Rightarrow> TestFailurePattern" where
  \<comment> \<open>the stored pattern of the scenario: test name, time of the last recording, frequency\<close>
  "search_timeout_pattern name t k =
     \<lparr>test_name = name, failure_type = ''timing_issue'',
      error_message = search_timeout_message,
      element_selector = Some ''#search-results'', timestamp = t, frequency = k,
      ctx = [(''browser'', ''unknown''), (''viewport'', ''{}''), (''duration'', ''0''),
             (''url'', []), (''screenshot'', [])]\<rparr>"

definition search_timeout_rule :: "env \<Rightarrow> rat \<Rightarrow> AdaptiveRule" where
  \<comment> \<open>the timing rule of the scenario, of a given confidence\<close>
  "search_timeout_rule w c =
     \<lparr>rule_id = ''timing_issue_'' @ now_stamp w, pattern = ''timing_issue'',
      suggested_fix = ''Add explicit wait for element '#search-results'' @ [CHR 0x27]
         @ '' with increased timeout (30s+)'',
      confidence = c, success_rate = 0, created_at = now w, last_applied = None\<rparr>"

definition cart_timeout_message :: string where
  "cart_timeout_message = ''Timeout waiting for selector '#cart'' @ [CHR 0x27]"

definition cart_timeout_result :: "string \<Rightarrow> test_result" where
  \<comment> \<open>a failure of the same kind on another locator\<close>
  "cart_timeout_result name =
     [''status'' \<mapsto> ''failed'', ''error_message'' \<mapsto> cart_timeout_message,
      ''test_name'' \<mapsto> name]"

definition offline_env :: env where
  \<comment> \<open>an environment whose analysis service is unreachable: the client catches the
     failure and answers with its fallback reply, which has no \<open>suggested_fix\<close> entry\<close>
  "offline_env =
     \<lparr>now = 0, now_stamp = ''20250101_000000'', set_order = remdups,
      analyze_test_failures = (\<lambda>patterns. Some None)\<rparr>"

definition mixed_engine :: AdaptiveTestingEngine where
  \<comment> \<open>a store with a frequent timing pattern and a less frequent network pattern\<close>
  "mixed_engine =
     init_engine\<lparr>failure_patterns :=
       [\<lparr>test_name = ''test_search'', failure_type = ''timing_issue'',
         error_message = search_timeout_message,
         element_selector = Some ''#search-results'', timestamp = 0, frequency = 8, ctx = []\<rparr>,
        \<lparr>test_name = ''test_checkout'', failure_type = ''network_issue'',
         error_message = ''Connection reset'',
         element_selector = None, timestamp = 0, frequency = 4, ctx = []\<rparr>]\<rparr>"

definition rule_of_kind :: "string \<Rightarrow> AdaptiveRule" where
  \<comment> \<open>a rule of full confidence on a given failure kind\<close>
  "rule_of_kind kind =
     \<lparr>rule_id = kind @ ''_20250101_000000'', pattern = kind, suggested_fix = [],
      confidence = 1, success_rate = 0, created_at = 0, last_applied = None\<rparr>"

definition low_pass_rate_insight :: AIInsight where
  \<comment> \<open>the insight of the pass-rate analysis for an average between 50 and 70 per cent\<close>
  "low_pass_rate_insight =
     \<lparr>category = ''quality'', title = ''Low Pass Rate Detected'',
      description = ''Average pass rate is 60.0%, below the recommended 85%'',
      severity = ''medium'',
      recommendations =
        [''Review and fix failing tests'', ''Improve test stability'',
         ''Consider test environment issues'', ''Implement better error handling''],
      insight_confidence = 9 / 10,
      data_points = [(''avg_pass_rate'', ''60.0''), (''trend'', ''0.0'')]\<rparr>"

definition slow_execution_insight :: AIInsight where
  \<comment> \<open>the insight of the duration analysis for an average above 30 seconds\<close>
  "slow_execution_insight =
     \<lparr>category = ''performance'', title = ''Slow Test Execution'',
      description = ''Average test duration is 45.0 seconds per test'',
      severity = ''medium'',
      recommendations =
        [''Optimize test selectors'', ''Reduce explicit waits'',
         ''Parallelize test execution'', ''Review test setup/teardown''],
      insight_confidence = 8 / 10,
      data_points = [(''avg_duration'', ''45.0''), (''trend'', ''0.0'')]\<rparr>"

definition run_of :: "string \<Rightarrow> string \<Rightarrow> test_run" where
  \<comment> \<open>a run with one test entry\<close>
  "run_of name status = [[''name'' \<mapsto> name, ''status'' \<mapsto> status]]"

fun record_all ::
  "AdaptiveTestingEngine \<Rightarrow> (nat \<times> test_result) list \<Rightarrow> AdaptiveTestingEngine" where
  \<comment> \<open>a sequence of \<open>record_test_failure\<close> calls, each with its time\<close>
  "record_all e [] = e"
| "record_all e ((t, test_result) # calls) = record_all (record_test_failure t e test_result) calls"

section \<open>Properties of the text primitives\<close>

lemma py_in_sublist: "py_in w s = sublist w s"
  by (induction s) (simp_all add: sublist_Cons_right)

lemma any_in_iff: "any_in ws s = (\<exists>w \<in> set ws. sublist w s)"
  by (simp add: any_in_def list_ex_iff py_in_sublist)

lemma sublist_lower: "sublist w m \<Longrightarrow> sublist (lower w) (lower m)"
  unfolding lower_def by (rule map_mono_sublist)

lemma lower_char_plus_32:
  "(65 \<le> (of_char c :: nat) \<and> (of_char c :: nat) \<le> 90)
     \<or> (192 \<le> (of_char c :: nat) \<and> (of_char c :: nat) \<le> 222 \<and> (of_char c :: nat) \<noteq> 215)
   \<Longrightarrow> (of_char (lower_char c) :: nat) = of_char c + 32"
  by (cases c) (auto simp add: lower_char_def of_bool_def split: if_splits)

section \<open>The classifier\<close>

lemma classify_failure_table: "classify_failure m = first_match kind_table (lower m)"
  unfolding classify_failure_def kind_table_def Let_def any_in_iff by simp

text \<open>
  C4. The classifier is a function of the message text alone. Its value is the first
  matching row of the ordered keyword table on the lower-cased message (timing,
  selector, network, assertion, permission, data), and \<open>unknown\<close> when no row
  matches. Two messages that agree up to letter case get the same kind. A message
  that contains \<open>timeout\<close> or \<open>element not found\<close> in any letter case is a
  \<open>timing_issue\<close>.
\<close>

theorem classify_failure_contract:
  "classify_failure m = first_match kind_table (lower m)
   \<and> (lower m = lower m' \<longrightarrow> classify_failure m = classify_failure m')
   \<and> (sublist w m \<and> (lower w = ''timeout'' \<or> lower w = ''element not found'')
        \<longrightarrow> classify_failure m = ''timing_issue'')"
proof (intro conjI impI)
  show "classify_failure m = first_match kind_table (lower m)"
    by (rule classify_failure_table)
next
  assume "lower m = lower m'"
  then show "classify_failure m = classify_failure m'"
    by (simp add: classify_failure_def)
next
  assume h: "sublist w m \<and> (lower w = ''timeout'' \<or> lower w = ''element not found'')"
  then have "sublist (lower w) (lower m)"
    by (simp add: sublist_lower)
  with h have "any_in [''timeout'', ''wait'', ''element not found''] (lower m)"
    unfolding any_in_iff by auto
  then show "classify_failure m = ''timing_issue''"
    by (simp add: classify_failure_def)
qed

theorem classify_failure_contract_witness:
  "lower ''Login TimeOut'' = lower ''LOGIN timeout''
   \<and> sublist ''TimeOut'' ''Login TimeOut''
   \<and> lower ''TimeOut'' = ''timeout''
   \<and> classify_failure ''Login TimeOut'' = ''timing_issue''
   \<and> classify_failure ''LOGIN timeout'' = ''timing_issue''
   \<and> first_match kind_table (lower ''Login TimeOut'') = ''timing_issue''"
proof -
  have a: "lower ''Login TimeOut'' = lower ''LOGIN timeout''"
    by (simp add: lower_def lower_char_def)
  have b: "sublist ''TimeOut'' ''Login TimeOut''"
    by (simp add: py_in_sublist [symmetric])
  have c: "lower ''TimeOut'' = ''timeout''"
    by (simp add: lower_def lower_char_def)
  from classify_failure_contract [of "''Login TimeOut''" "''LOGIN timeout''" "''TimeOut''"] a b c
  show ?thesis by metis
qed

section \<open>Locator extraction\<close>

lemma re_search_hit: "m s \<noteq> None \<Longrightarrow> re_search m s \<noteq> None"
  by (cases s) (auto split: option.splits)

lemma re_search_suffix: "m s2 \<noteq> None \<Longrightarrow> re_search m (s1 @ s2) \<noteq> None"
  by (induction s1) (auto simp add: re_search_hit split: option.splits)

lemma quote_not_css: "is_quote q \<Longrightarrow> \<not> is_css_char q"
  by (auto simp add: is_quote_def is_css_char_def is_word_def)

lemma match_quoted_css_hit:
  assumes "is_quote q1" and "is_quote q2" and "tok \<noteq> []" and "\<forall>c \<in> set tok. is_css_char c"
  shows "match_quoted_css (q1 # tok @ q2 # post) = Some tok"
proof -
  have n: "\<not> is_css_char q2"
    using assms(2) by (rule quote_not_css)
  have t: "takeWhile is_css_char (tok @ q2 # post) = tok"
    using assms(4) n by (simp add: takeWhile_tail)
  have d: "dropWhile is_css_char (tok @ q2 # post) = q2 # post"
    using assms(4) n by (simp add: dropWhile_append3)
  show ?thesis
    using assms(1,2,3) by (simp add: match_quoted_css_def t d)
qed

text \<open>
  C10. Locator extraction over-matches. A message that contains, between two quote
  characters, a non-empty token made only of word characters and of
  \<open>#\<close>, \<open>.\<close>, \<open>[\<close>, \<open>]\<close>, \<open>@\<close>, \<open>-\<close>, \<open>:\<close> always yields some locator, whether or not it has a
  locator, element or selector phrase; so the pattern extracted from a failed result with
  such a message has an element selector in its identity.
\<close>

theorem extract_element_selector_over_matches:
  assumes "is_quote q1" and "is_quote q2" and "tok \<noteq> []"
    and "\<forall>c \<in> set tok. is_css_char c"
    and "msg = pre @ q1 # tok @ q2 # post"
  shows "(\<exists>sel. extract_element_selector msg = Some sel)
    \<and> (test_result ''status'' = Some ''failed'' \<and> test_result ''error_message'' = Some msg
         \<longrightarrow> (\<exists>p sel. extract_failure_pattern t test_result = Some p
                \<and> element_selector p = Some sel))"
proof -
  have "match_quoted_css (q1 # tok @ q2 # post) \<noteq> None"
    using assms(1-4) by (simp add: match_quoted_css_hit)
  then have "re_search match_quoted_css msg \<noteq> None"
    unfolding assms(5) by (rule re_search_suffix)
  then have e: "\<exists>sel. extract_element_selector msg = Some sel"
    by (auto simp add: extract_element_selector_def split: option.splits)
  then show ?thesis
    by (auto simp add: extract_failure_pattern_def dict_get_def Let_def)
qed

theorem extract_element_selector_over_matches_witness:
  "extract_element_selector (''expected 'foo'' @ [CHR 0x27]) = Some ''foo''
   \<and> classify_failure (''expected 'foo'' @ [CHR 0x27]) = ''assertion_failure''
   \<and> (\<exists>p sel. extract_failure_pattern 0
          [''status'' \<mapsto> ''failed'', ''error_message'' \<mapsto> ''expected 'foo'' @ [CHR 0x27]] = Some p
        \<and> element_selector p = Some sel)"
proof -
  have q: "is_quote (CHR 0x27)"
    by (simp add: is_quote_def)
  have c: "\<forall>c \<in> set ''foo''. is_css_char c"
    by (simp add: is_css_char_def is_word_def)
  have v: "extract_element_selector (''expected 'foo'' @ [CHR 0x27]) = Some ''foo''"
    by (simp add: extract_element_selector_def match_keyword_quoted_def match_quoted_css_def
        lower_def lower_char_def is_space_def is_quote_def is_css_char_def is_word_def)
  have k: "classify_failure (''expected 'foo'' @ [CHR 0x27]) = ''assertion_failure''"
    by (simp add: classify_failure_def any_in_def lower_def lower_char_def)
  have "\<exists>p sel. extract_failure_pattern 0
          [''status'' \<mapsto> ''failed'', ''error_message'' \<mapsto> ''expected 'foo'' @ [CHR 0x27]] = Some p
        \<and> element_selector p = Some sel"
    using extract_element_selector_over_matches
      [of "CHR 0x27" "CHR 0x27" "''foo''" "''expected 'foo'' @ [CHR 0x27]" "''expected ''" "[]"
          "[''status'' \<mapsto> ''failed'', ''error_message'' \<mapsto> ''expected 'foo'' @ [CHR 0x27]]" 0]
      q c
    by simp
  with v k show ?thesis by simp
qed

section \<open>The end-to-end scenario\<close>

lemma classify_search_timeout: "classify_failure search_timeout_message = ''timing_issue''"
  by (simp add: search_timeout_message_def classify_failure_def any_in_def lower_def
      lower_char_def)

lemma extract_search_timeout:
  "extract_element_selector search_timeout_message = Some ''#search-results''"
  by (simp add: search_timeout_message_def extract_element_selector_def
      match_keyword_quoted_def match_quoted_css_def lower_def lower_char_def is_space_def
      is_quote_def)

lemma extract_pattern_search_timeout:
  "extract_failure_pattern t (search_timeout_result n) = Some (search_timeout_pattern n t 1)"
  by (simp add: extract_failure_pattern_def search_timeout_result_def dict_get_def
      classify_search_timeout extract_search_timeout search_timeout_pattern_def)

lemma record_search_timeout_first:
  "record_test_failure t init_engine (search_timeout_result n) =
     init_engine\<lparr>failure_patterns := [search_timeout_pattern n t 1]\<rparr>"
  by (simp add: record_test_failure_def extract_pattern_search_timeout init_engine_def)

lemma record_search_timeout_again:
  "record_test_failure t
     (init_engine\<lparr>failure_patterns := [search_timeout_pattern n t' k]\<rparr>)
     (search_timeout_result n) =
   init_engine\<lparr>failure_patterns := [search_timeout_pattern n t (k + 1)]\<rparr>"
  by (simp add: record_test_failure_def extract_pattern_search_timeout init_engine_def)
    (simp add: search_timeout_pattern_def)

lemma record_all_search_timeout_again:
  "record_all (init_engine\<lparr>failure_patterns := [search_timeout_pattern n t' k]\<rparr>)
     (map (\<lambda>t. (t, search_timeout_result n)) ts) =
   init_engine\<lparr>failure_patterns :=
     [search_timeout_pattern n (last (t' # ts)) (k + int (length ts))]\<rparr>"
proof (induction ts arbitrary: t' k)
  case Nil
  then show ?case by simp
next
  case (Cons t ts)
  have step: "record_all (init_engine\<lparr>failure_patterns := [search_timeout_pattern n t' k]\<rparr>)
      (map (\<lambda>t. (t, search_timeout_result n)) (t # ts)) =
    record_all (init_engine\<lparr>failure_patterns := [search_timeout_pattern n t (k + 1)]\<rparr>)
      (map (\<lambda>t. (t, search_timeout_result n)) ts)"
    by (simp add: record_search_timeout_again)
  have fr: "k + 1 + int (length ts) = k + int (length (t # ts))"
    by simp
  have la: "last (t # ts) = last (t' # t # ts)"
    by simp
  show ?case
    unfolding step Cons.IH fr la ..
qed

lemma record_all_search_timeout:
  assumes "ts \<noteq> []"
  shows "record_all init_engine (map (\<lambda>t. (t, search_timeout_result n)) ts) =
     init_engine\<lparr>failure_patterns :=
       [search_timeout_pattern n (last ts) (int (length ts))]\<rparr>"
proof -
  from assms obtain t ts' where ts: "ts = t # ts'"
    by (cases ts) auto
  have step: "record_all init_engine (map (\<lambda>t. (t, search_timeout_result n)) (t # ts')) =
    record_all (init_engine\<lparr>failure_patterns := [search_timeout_pattern n t 1]\<rparr>)
      (map (\<lambda>t. (t, search_timeout_result n)) ts')"
    by (simp add: record_search_timeout_first)
  have fr: "1 + int (length ts') = int (length (t # ts'))"
    by simp
  show ?thesis
    unfolding ts step record_all_search_timeout_again fr ..
qed

lemma pattern_groups_single_timing:
  "pattern_groups (init_engine\<lparr>failure_patterns := [search_timeout_pattern n t k]\<rparr>) =
     (if 3 \<le> k then [(''timing_issue'', [search_timeout_pattern n t k])] else [])"
  by (simp add: pattern_groups_def init_engine_def search_timeout_pattern_def)

lemma confidence_single_timing:
  "confidence_of_average (average_frequency [search_timeout_pattern n t k])
     = min (of_int k / 10) 1"
  by (simp add: confidence_of_average_def average_frequency_def search_timeout_pattern_def)

lemma analyze_single_timing_pattern:
  "analyze_patterns_and_create_rules w
     (init_engine\<lparr>failure_patterns := [search_timeout_pattern n t k]\<rparr>) =
   (if 7 \<le> k
    then Inr ([search_timeout_rule w (min (of_int k / 10) 1)],
              init_engine\<lparr>failure_patterns := [search_timeout_pattern n t k],
                           adaptive_rules := [search_timeout_rule w (min (of_int k / 10) 1)]\<rparr>)
    else Inr ([], init_engine\<lparr>failure_patterns := [search_timeout_pattern n t k]\<rparr>))"
  by (simp add: analyze_patterns_and_create_rules_def pattern_groups_def init_engine_def
      create_rule_for_pattern_group_def create_timing_fix_suggestion_def truthy_selectors_def
      List.map_filter_simps confidence_of_average_def average_frequency_def Let_def
      search_timeout_pattern_def search_timeout_rule_def)

lemma search_timeout_rule_names_locator:
  "py_in ''#search-results'' (suggested_fix (search_timeout_rule w c))"
  by (simp add: search_timeout_rule_def)

text \<open>
  C1, as the code has it. From an empty store and an empty rule list, recording the
  search-timeout failure any number k of times (at least once) under one test name
  leaves exactly one pattern, with frequency k, kind \<open>timing_issue\<close> and locator
  \<open>#search-results\<close>, stamped with the time of the last recording. With the default
  thresholds the pattern forms a kind-group exactly when k is at least 3, the group's
  confidence is the minimum of k/10 and 1, and rule synthesis returns and appends
  exactly one rule, of that confidence and with a suggested fix naming
  \<open>#search-results\<close>, exactly when k is at least 7; for a smaller k it returns no rule
  and leaves the engine as it is. So three recordings give one pattern of frequency 3,
  a group of confidence 3/10 and no rule.
\<close>

theorem end_to_end_search_timeout:
  "ts \<noteq> [] \<longrightarrow>
   (let e = record_all init_engine (map (\<lambda>t. (t, search_timeout_result n)) ts);
        k = int (length ts);
        p = search_timeout_pattern n (last ts) k;
        rule = search_timeout_rule w (min (of_int k / 10) 1)
    in failure_patterns e = [p]
       \<and> adaptive_rules e = []
       \<and> pattern_groups e = (if 3 \<le> k then [(''timing_issue'', [p])] else [])
       \<and> confidence_of_average (average_frequency [p]) = min (of_int k / 10) 1
       \<and> analyze_patterns_and_create_rules w e =
           (if 7 \<le> k then Inr ([rule], e\<lparr>adaptive_rules := [rule]\<rparr>) else Inr ([], e))
       \<and> py_in ''#search-results'' (suggested_fix rule))"
proof
  assume "ts \<noteq> []"
  then have e: "record_all init_engine (map (\<lambda>t. (t, search_timeout_result n)) ts) =
     init_engine\<lparr>failure_patterns :=
       [search_timeout_pattern n (last ts) (int (length ts))]\<rparr>"
    by (rule record_all_search_timeout)
  have r: "adaptive_rules init_engine = []"
    by (simp add: init_engine_def)
  show "let e = record_all init_engine (map (\<lambda>t. (t, search_timeout_result n)) ts);
        k = int (length ts);
        p = search_timeout_pattern n (last ts) k;
        rule = search_timeout_rule w (min (of_int k / 10) 1)
    in failure_patterns e = [p]
       \<and> adaptive_rules e = []
       \<and> pattern_groups e = (if 3 \<le> k then [(''timing_issue'', [p])] else [])
       \<and> confidence_of_average (average_frequency [p]) = min (of_int k / 10) 1
       \<and> analyze_patterns_and_create_rules w e =
           (if 7 \<le> k then Inr ([rule], e\<lparr>adaptive_rules := [rule]\<rparr>) else Inr ([], e))
       \<and> py_in ''#search-results'' (suggested_fix rule)"
    unfolding Let_def e
    by (simp add: r pattern_groups_single_timing confidence_single_timing
        analyze_single_timing_pattern search_timeout_rule_names_locator)
qed

theorem end_to_end_search_timeout_witness:
  "[1, 2, 3 :: nat] \<noteq> []
   \<and> failure_patterns
        (record_all init_engine
           (map (\<lambda>t. (t, search_timeout_result ''test_search'')) [1, 2, 3]))
       = [search_timeout_pattern ''test_search'' 3 3]
   \<and> pattern_groups
        (record_all init_engine
           (map (\<lambda>t. (t, search_timeout_result ''test_search'')) [1, 2, 3]))
       = [(''timing_issue'', [search_timeout_pattern ''test_search'' 3 3])]
   \<and> confidence_of_average (average_frequency [search_timeout_pattern ''test_search'' 3 3])
       = 3 / 10
   \<and> map_sum id fst
        (analyze_patterns_and_create_rules offline_env
           (record_all init_engine
              (map (\<lambda>t. (t, search_timeout_result ''test_search'')) [1, 2, 3])))
       = Inr []
   \<and> map_sum id fst
        (analyze_patterns_and_create_rules offline_env
           (record_all init_engine
              (map (\<lambda>t. (t, search_timeout_result ''test_search'')) [1, 2, 3, 4, 5, 6, 7, 8, 9])))
       = Inr [search_timeout_rule offline_env (9 / 10)]"
  using end_to_end_search_timeout [of "[1, 2, 3]" "''test_search''" offline_env]
    end_to_end_search_timeout [of "[1, 2, 3, 4, 5, 6, 7, 8, 9]" "''test_search''" offline_env]
  by (simp add: Let_def)

theorem end_to_end_search_timeout_counterexample:
  "map_sum id fst
     (analyze_patterns_and_create_rules offline_env
        (record_all init_engine
           [(1, search_timeout_result ''test_product_search''),
            (2, search_timeout_result ''test_product_search''),
            (3, search_timeout_result ''test_product_search'')])) = Inr []"
  by (simp add: record_search_timeout_first record_search_timeout_again
      analyze_single_timing_pattern)

section \<open>The pattern store\<close>

lemma find_existing_pattern_None:
  "find_existing_pattern ps p = None \<Longrightarrow> identity p \<notin> set (map identity ps)"
  by (induction ps) (auto simp add: identity_def split: if_splits)

lemma find_existing_pattern_Some:
  "find_existing_pattern ps p = Some i \<Longrightarrow> i < length ps \<and> identity (ps ! i) = identity p"
proof (induction ps arbitrary: i)
  case Nil
  then show ?case by simp
next
  case (Cons q qs)
  show ?case
  proof (cases "identity q = identity p")
    case True
    with Cons.prems show ?thesis
      by (simp add: identity_def)
  next
    case False
    with Cons.prems obtain j where j: "find_existing_pattern qs p = Some j" and i: "i = Suc j"
      by (auto simp add: identity_def split: if_splits)
    from Cons.IH [OF j] i show ?thesis by simp
  qed
qed

lemma identity_bump:
  "identity (p\<lparr>frequency := f, timestamp := t\<rparr>) = identity p"
  by (simp add: identity_def)

lemma record_test_failure_distinct:
  assumes "distinct (map identity (failure_patterns e))"
  shows "distinct (map identity (failure_patterns (record_test_failure t e r)))"
proof (cases "extract_failure_pattern t r")
  case None
  with assms show ?thesis
    by (simp add: record_test_failure_def)
next
  case (Some p)
  show ?thesis
  proof (cases "find_existing_pattern (failure_patterns e) p")
    case None
    from find_existing_pattern_None [OF None] assms Some None show ?thesis
      by (simp add: record_test_failure_def)
  next
    case (Some i)
    from find_existing_pattern_Some [OF Some]
    have "map identity ((failure_patterns e)
            [i := (failure_patterns e ! i)
                    \<lparr>frequency := frequency (failure_patterns e ! i) + 1, timestamp := t\<rparr>])
          = map identity (failure_patterns e)"
      by (simp add: map_update identity_bump list_update_same_conv)
    with assms \<open>extract_failure_pattern t r = Some p\<close> Some show ?thesis
      by (simp add: record_test_failure_def Let_def)
  qed
qed

lemma record_all_distinct:
  "distinct (map identity (failure_patterns e))
   \<Longrightarrow> distinct (map identity (failure_patterns (record_all e calls)))"
  by (induction e calls rule: record_all.induct) (simp_all add: record_test_failure_distinct)

text \<open>
  C2. The store holds at most one pattern per identity triple (test name, failure kind,
  locator or none): every call of \<open>record_test_failure\<close> keeps that, so it holds after any
  sequence of calls on the empty store. Two failures with one identity, recorded on the
  empty store, leave exactly one pattern, of frequency 2; two failures with the same test
  name and kind and different locators leave two patterns, each of frequency 1.
\<close>

theorem pattern_store_identity:
  "(distinct (map identity (failure_patterns e))
      \<longrightarrow> distinct (map identity (failure_patterns (record_all e calls))))
   \<and> distinct (map identity (failure_patterns (record_all init_engine calls)))
   \<and> (extract_failure_pattern t1 r1 = Some p1 \<and> extract_failure_pattern t2 r2 = Some p2
        \<and> identity p1 = identity p2
      \<longrightarrow> failure_patterns (record_all init_engine [(t1, r1), (t2, r2)])
            = [p1\<lparr>frequency := 2, timestamp := t2\<rparr>])
   \<and> (extract_failure_pattern t1 r1 = Some p1 \<and> extract_failure_pattern t3 r3 = Some p3
        \<and> test_name p1 = test_name p3 \<and> failure_type p1 = failure_type p3
        \<and> element_selector p1 \<noteq> element_selector p3
      \<longrightarrow> failure_patterns (record_all init_engine [(t1, r1), (t3, r3)]) = [p1, p3]
          \<and> frequency p1 = 1 \<and> frequency p3 = 1 \<and> identity p1 \<noteq> identity p3)"
proof -
  have inv: "distinct (map identity (failure_patterns e))
      \<longrightarrow> distinct (map identity (failure_patterns (record_all e calls)))"
    by (simp add: record_all_distinct)
  have from_empty: "distinct (map identity (failure_patterns (record_all init_engine calls)))"
    by (rule record_all_distinct) (simp add: init_engine_def)
  have same: "failure_patterns (record_all init_engine [(t1, r1), (t2, r2)])
            = [p1\<lparr>frequency := 2, timestamp := t2\<rparr>]"
    if h: "extract_failure_pattern t1 r1 = Some p1 \<and> extract_failure_pattern t2 r2 = Some p2
        \<and> identity p1 = identity p2"
  proof -
    from h have f: "frequency p1 = 1"
      by (auto simp add: extract_failure_pattern_def Let_def split: if_splits)
    from h f show ?thesis
      by (simp add: record_test_failure_def init_engine_def identity_def)
  qed
  have different: "failure_patterns (record_all init_engine [(t1, r1), (t3, r3)]) = [p1, p3]
          \<and> frequency p1 = 1 \<and> frequency p3 = 1 \<and> identity p1 \<noteq> identity p3"
    if h: "extract_failure_pattern t1 r1 = Some p1 \<and> extract_failure_pattern t3 r3 = Some p3
        \<and> test_name p1 = test_name p3 \<and> failure_type p1 = failure_type p3
        \<and> element_selector p1 \<noteq> element_selector p3"
  proof -
    from h have f: "frequency p1 = 1" "frequency p3 = 1"
      by (auto simp add: extract_failure_pattern_def Let_def split: if_splits)
    from h f show ?thesis
      by (simp add: record_test_failure_def init_engine_def identity_def)
  qed
  from inv from_empty same different show ?thesis
    by blast
qed

lemma extract_pattern_cart_timeout:
  "extract_failure_pattern t (cart_timeout_result n) =
     Some \<lparr>test_name = n, failure_type = ''timing_issue'',
           error_message = cart_timeout_message,
           element_selector = Some ''#cart'', timestamp = t, frequency = 1,
           ctx = [(''browser'', ''unknown''), (''viewport'', ''{}''), (''duration'', ''0''),
                  (''url'', []), (''screenshot'', [])]\<rparr>"
  by (simp add: extract_failure_pattern_def cart_timeout_result_def dict_get_def
      cart_timeout_message_def classify_failure_def any_in_def lower_def lower_char_def
      extract_element_selector_def match_keyword_quoted_def match_quoted_css_def
      is_space_def is_quote_def)

theorem pattern_store_identity_witness:
  "distinct (map identity (failure_patterns init_engine))
   \<and> distinct (map identity (failure_patterns
         (record_all init_engine
            [(1, search_timeout_result ''test_search''), (2, search_timeout_result ''test_search''),
             (3, cart_timeout_result ''test_search'')])))
   \<and> map frequency (failure_patterns
         (record_all init_engine
            [(1, search_timeout_result ''test_search''), (2, search_timeout_result ''test_search'')]))
       = [2]
   \<and> map frequency (failure_patterns
         (record_all init_engine
            [(1, search_timeout_result ''test_search''), (3, cart_timeout_result ''test_search'')]))
       = [1, 1]
   \<and> map element_selector (failure_patterns
         (record_all init_engine
            [(1, search_timeout_result ''test_search''), (3, cart_timeout_result ''test_search'')]))
       = [Some ''#search-results'', Some ''#cart'']"
proof -
  have d: "distinct (map identity (failure_patterns init_engine))"
    by (simp add: init_engine_def)
  note h = extract_pattern_search_timeout [of _ "''test_search''"]
    extract_pattern_cart_timeout [of _ "''test_search''"]
  from pattern_store_identity
    [where e = init_engine
       and calls = "[(1, search_timeout_result ''test_search''),
                     (2, search_timeout_result ''test_search''),
                     (3, cart_timeout_result ''test_search'')]"
       and ?t1.0 = 1 and ?r1.0 = "search_timeout_result ''test_search''"
       and ?p1.0 = "the (extract_failure_pattern 1 (search_timeout_result ''test_search''))"
       and ?t2.0 = 2 and ?r2.0 = "search_timeout_result ''test_search''"
       and ?p2.0 = "the (extract_failure_pattern 2 (search_timeout_result ''test_search''))"
       and ?t3.0 = 3 and ?r3.0 = "cart_timeout_result ''test_search''"
       and ?p3.0 = "the (extract_failure_pattern 3 (cart_timeout_result ''test_search''))"]
    d
  show ?thesis
    by (simp add: h identity_def search_timeout_pattern_def)
qed

section \<open>Rule confidence\<close>

text \<open>
  C5. The confidence of a synthesized rule is the minimum of a tenth of the group's
  average frequency and 1. As a function of the average frequency it never decreases,
  and it is exactly 1 from an average of 10 on.
\<close>

theorem rule_confidence_saturating:
  "(patterns \<noteq> [] \<longrightarrow>
      (\<exists>rule. create_rule_for_pattern_group w ftype patterns = Inr rule
         \<and> confidence rule
             = min ((of_int (sum_list (map frequency patterns)) / of_nat (length patterns)) / 10) 1))
   \<and> (a \<le> b \<longrightarrow> confidence_of_average a \<le> confidence_of_average b)
   \<and> (10 \<le> a \<longrightarrow> confidence_of_average a = 1)"
proof (intro conjI impI)
  assume "patterns \<noteq> []"
  then show "\<exists>rule. create_rule_for_pattern_group w ftype patterns = Inr rule
         \<and> confidence rule
             = min ((of_int (sum_list (map frequency patterns)) / of_nat (length patterns)) / 10) 1"
    by (simp add: create_rule_for_pattern_group_def confidence_of_average_def
        average_frequency_def)
next
  assume "a \<le> b"
  then have "a / 10 \<le> b / 10"
    by (simp add: divide_right_mono)
  then show "confidence_of_average a \<le> confidence_of_average b"
    unfolding confidence_of_average_def by (rule min.mono) simp
next
  assume "10 \<le> a"
  then have "1 \<le> a / 10"
    by simp
  then show "confidence_of_average a = 1"
    unfolding confidence_of_average_def by (simp add: min_def)
qed

theorem rule_confidence_saturating_witness:
  "[\<lparr>test_name = ''t'', failure_type = ''timing_issue'', error_message = ''timeout'',
     element_selector = None, timestamp = 0, frequency = 4, ctx = []\<rparr>] \<noteq> []
   \<and> (\<exists>rule. create_rule_for_pattern_group offline_env ''timing_issue''
          [\<lparr>test_name = ''t'', failure_type = ''timing_issue'', error_message = ''timeout'',
            element_selector = None, timestamp = 0, frequency = 4, ctx = []\<rparr>] = Inr rule
        \<and> confidence rule = 2 / 5)
   \<and> (10 :: rat) \<le> 12
   \<and> confidence_of_average 10 \<le> confidence_of_average 12
   \<and> confidence_of_average 10 = 1"
  using rule_confidence_saturating
    [of "[\<lparr>test_name = ''t'', failure_type = ''timing_issue'', error_message = ''timeout'',
           element_selector = None, timestamp = 0, frequency = 4, ctx = []\<rparr>]"
        offline_env "''timing_issue''" 10 12]
  by simp

section \<open>Rule synthesis\<close>

lemma group_append_nonempty:
  "\<forall>g \<in> set d. snd g \<noteq> [] \<Longrightarrow> \<forall>g \<in> set (group_append d k v). snd g \<noteq> []"
  by (induction d k v rule: group_append.induct) auto

lemma group_append_keys:
  "map fst (group_append d k v) = (if k \<in> set (map fst d) then map fst d else map fst d @ [k])"
  by (induction d k v rule: group_append.induct) auto

lemma group_append_distinct:
  "distinct (map fst d) \<Longrightarrow> distinct (map fst (group_append d k v))"
  by (simp add: group_append_keys)

lemma foldl_groups_invariant:
  "\<forall>g \<in> set d. snd g \<noteq> [] \<Longrightarrow> distinct (map fst d)
   \<Longrightarrow> (\<forall>g \<in> set (foldl (\<lambda>groups p. if c p then group_append groups (key p) p else groups) d ps).
         snd g \<noteq> [])
     \<and> distinct (map fst (foldl (\<lambda>groups p. if c p then group_append groups (key p) p else groups) d ps))"
proof (induction ps arbitrary: d)
  case Nil
  then show ?case by simp
next
  case (Cons p ps)
  show ?case
  proof (cases "c p")
    case True
    from Cons.prems have "\<forall>g \<in> set (group_append d (key p) p). snd g \<noteq> []"
      and "distinct (map fst (group_append d (key p) p))"
      by (simp_all add: group_append_nonempty group_append_distinct)
    from Cons.IH [OF this] True show ?thesis by simp
  next
    case False
    with Cons.IH [OF Cons.prems] show ?thesis by simp
  qed
qed

lemma pattern_groups_invariant:
  "(\<forall>g \<in> set (pattern_groups e). snd g \<noteq> []) \<and> distinct (map fst (pattern_groups e))"
  unfolding pattern_groups_def by (rule foldl_groups_invariant) simp_all

lemma create_rule_group:
  "ps \<noteq> [] \<Longrightarrow>
   \<exists>rule. create_rule_for_pattern_group w k ps = Inr rule \<and> pattern rule = k
     \<and> confidence rule = confidence_of_average (average_frequency ps)"
  by (simp add: create_rule_for_pattern_group_def)

lemma create_rules_kept:
  "\<forall>g \<in> set groups. snd g \<noteq> [] \<Longrightarrow>
   \<exists>rules. create_rules w th groups = Inr rules
     \<and> (\<forall>r \<in> set rules. th \<le> confidence r
           \<and> (\<exists>ps. (pattern r, ps) \<in> set groups
                 \<and> confidence r = confidence_of_average (average_frequency ps)))"
proof (induction groups)
  case Nil
  then show ?case by simp
next
  case (Cons g groups)
  obtain k ps where g: "g = (k, ps)"
    by (cases g)
  with Cons.prems have "ps \<noteq> []"
    by simp
  from create_rule_group [OF this] obtain rule where
    rule: "create_rule_for_pattern_group w k ps = Inr rule" "pattern rule = k"
      "confidence rule = confidence_of_average (average_frequency ps)"
    by blast
  from Cons.IH Cons.prems obtain rules where
    rules: "create_rules w th groups = Inr rules"
      "\<forall>r \<in> set rules. th \<le> confidence r
           \<and> (\<exists>ps. (pattern r, ps) \<in> set groups
                 \<and> confidence r = confidence_of_average (average_frequency ps))"
    by auto
  show ?case
  proof (cases "th \<le> confidence rule")
    case True
    with g rule rules show ?thesis by auto
  next
    case False
    with g rule rules show ?thesis by auto
  qed
qed

text \<open>
  C6. Rule synthesis always returns. Every rule it returns has a confidence of at least
  the engine's confidence threshold, and the rules it appends to the rule list are the
  rules it returns; a kind-group whose confidence is below the threshold contributes no
  rule at all.
\<close>

theorem synthesize_respects_threshold:
  "\<exists>new_rules.
     analyze_patterns_and_create_rules w e
       = Inr (new_rules, e\<lparr>adaptive_rules := adaptive_rules e @ new_rules\<rparr>)
     \<and> (\<forall>r \<in> set new_rules. confidence_threshold e \<le> confidence r)
     \<and> (\<forall>g \<in> set (pattern_groups e).
           confidence_of_average (average_frequency (snd g)) < confidence_threshold e
           \<longrightarrow> (\<forall>r \<in> set new_rules. pattern r \<noteq> fst g))"
proof -
  from pattern_groups_invariant [of e]
  have ne: "\<forall>g \<in> set (pattern_groups e). snd g \<noteq> []"
    and di: "distinct (map fst (pattern_groups e))"
    by simp_all
  from create_rules_kept [OF ne, of w "confidence_threshold e"] obtain rules where
    rules: "create_rules w (confidence_threshold e) (pattern_groups e) = Inr rules"
      "\<forall>r \<in> set rules. confidence_threshold e \<le> confidence r
           \<and> (\<exists>ps. (pattern r, ps) \<in> set (pattern_groups e)
                 \<and> confidence r = confidence_of_average (average_frequency ps))"
    by blast
  have discarded: "pattern r \<noteq> fst g"
    if g: "g \<in> set (pattern_groups e)"
      and low: "confidence_of_average (average_frequency (snd g)) < confidence_threshold e"
      and r: "r \<in> set rules" for g r
  proof
    assume same: "pattern r = fst g"
    from rules(2) r obtain ps where
      ps: "(pattern r, ps) \<in> set (pattern_groups e)"
        "confidence r = confidence_of_average (average_frequency ps)"
        "confidence_threshold e \<le> confidence r"
      by blast
    from g same have "(pattern r, snd g) \<in> set (pattern_groups e)"
      by (metis prod.collapse)
    with ps(1) di have "ps = snd g"
      by (meson eq_key_imp_eq_value)
    with ps low show False
      by simp
  qed
  from rules have "analyze_patterns_and_create_rules w e
       = Inr (rules, e\<lparr>adaptive_rules := adaptive_rules e @ rules\<rparr>)"
    by (simp add: analyze_patterns_and_create_rules_def)
  with rules(2) discarded show ?thesis
    by blast
qed

theorem synthesize_respects_threshold_witness:
  "map fst (pattern_groups mixed_engine) = [''timing_issue'', ''network_issue'']
   \<and> map (\<lambda>g. confidence_of_average (average_frequency (snd g))) (pattern_groups mixed_engine)
       = [4 / 5, 2 / 5]
   \<and> confidence_threshold mixed_engine = 7 / 10
   \<and> map_sum id (\<lambda>res. map pattern (fst res))
        (analyze_patterns_and_create_rules offline_env mixed_engine) = Inr [''timing_issue'']"
  using synthesize_respects_threshold [of offline_env mixed_engine]
  by (simp add: mixed_engine_def init_engine_def pattern_groups_def
      analyze_patterns_and_create_rules_def create_rule_for_pattern_group_def
      confidence_of_average_def average_frequency_def)

section \<open>Rule application\<close>

lemma str_replace_absent:
  "\<not> sublist (a # old) s \<Longrightarrow> str_replace (a # old) new s = s"
proof (induction s)
  case Nil
  then show ?case by simp
next
  case (Cons c cs)
  from Cons.prems have "\<not> prefix (a # old) (c # cs)" and "\<not> sublist (a # old) cs"
    by (auto simp add: sublist_Cons_right simp del: Cons_prefix_Cons)
  with Cons.IH show ?case by (simp del: Cons_prefix_Cons)
qed

lemma str_replace_present:
  "sublist (a # old) s \<Longrightarrow> sublist new (str_replace (a # old) new s)"
proof (induction s)
  case Nil
  then show ?case by simp
next
  case (Cons c cs)
  show ?case
  proof (cases "prefix (a # old) (c # cs)")
    case True
    then show ?thesis by (simp del: Cons_prefix_Cons)
  next
    case False
    with Cons.prems have "sublist (a # old) cs"
      by (simp add: sublist_Cons_right del: Cons_prefix_Cons)
    then have "sublist new (str_replace (a # old) new cs)"
      by (rule Cons.IH)
    with False show ?thesis
      by (simp add: sublist_Cons_right del: Cons_prefix_Cons)
  qed
qed

lemma sublist_trans_app: "sublist w x \<Longrightarrow> sublist x s \<Longrightarrow> sublist w s"
  by (rule sublist_order.order_trans)

lemma wait_marker_in_injection: "sublist ''page.wait_for_selector'' wait_then_click"
  by (simp add: wait_then_click_def py_in_sublist [symmetric])

lemma testid_marker_in_advice: "sublist ''data-testid'' selector_advice"
  by (simp add: selector_advice_def py_in_sublist [symmetric])

lemma retry_marker_in_import: "sublist ''retry'' (lower retry_import)"
  by (simp add: retry_import_def lower_def lower_char_def py_in_sublist [symmetric])

lemma lower_append: "lower (xs @ ys) = lower xs @ lower ys"
  by (simp add: lower_def)

lemma apply_timing_twice:
  assumes "pattern rule = ''timing_issue''"
  shows "fst (apply_rule_to_content (fst (apply_rule_to_content content rule)) rule)
           = fst (apply_rule_to_content content rule)"
proof (cases "\<not> py_in ''page.wait_for_selector'' content \<and> py_in ''click('' content")
  case False
  with assms show ?thesis
    by (auto simp add: apply_rule_to_content_def)
next
  case guard: True
  show ?thesis
  proof (cases "sublist ''page.click('' content")
    case True
    then have "sublist wait_then_click (str_replace ''page.click('' wait_then_click content)"
      by (rule str_replace_present)
    with wait_marker_in_injection
    have "py_in ''page.wait_for_selector'' (str_replace ''page.click('' wait_then_click content)"
      unfolding py_in_sublist by (rule sublist_trans_app)
    with assms guard show ?thesis
      by (simp add: apply_rule_to_content_def)
  next
    case False
    then have "str_replace ''page.click('' wait_then_click content = content"
      by (rule str_replace_absent)
    with assms guard show ?thesis
      by (simp add: apply_rule_to_content_def)
  qed
qed

lemma apply_selector_twice:
  assumes "pattern rule = ''element_selector''"
  shows "fst (apply_rule_to_content (fst (apply_rule_to_content content rule)) rule)
           = fst (apply_rule_to_content content rule)"
proof -
  have "py_in ''data-testid'' (selector_advice @ content)"
    unfolding py_in_sublist
    using testid_marker_in_advice by (rule sublist_trans_app) simp
  with assms show ?thesis
    by (simp add: apply_rule_to_content_def)
qed

lemma apply_network_twice:
  assumes "pattern rule = ''network_issue''"
  shows "fst (apply_rule_to_content (fst (apply_rule_to_content content rule)) rule)
           = fst (apply_rule_to_content content rule)"
proof -
  have "py_in ''retry'' (lower (retry_import @ [CHR 0x0A] @ content))"
    unfolding py_in_sublist lower_append
    using retry_marker_in_import by (rule sublist_trans_app) simp
  with assms show ?thesis
    by (simp add: apply_rule_to_content_def)
qed

lemma apply_rule_twice:
  "fst (apply_rule_to_content (fst (apply_rule_to_content content rule)) rule)
     = fst (apply_rule_to_content content rule)"
proof -
  consider "pattern rule = ''timing_issue''" | "pattern rule = ''element_selector''"
    | "pattern rule = ''network_issue''"
    | "pattern rule \<noteq> ''timing_issue'' \<and> pattern rule \<noteq> ''element_selector''
        \<and> pattern rule \<noteq> ''network_issue''"
    by blast
  then show ?thesis
  proof cases
    case 1
    then show ?thesis by (rule apply_timing_twice)
  next
    case 2
    then show ?thesis by (rule apply_selector_twice)
  next
    case 3
    then show ?thesis by (rule apply_network_twice)
  next
    case 4
    then show ?thesis by (simp add: apply_rule_to_content_def)
  qed
qed

text \<open>
  C7. A rule applied to a text that already holds its kind's marker returns the text
  unchanged and reports that it was not applied: the marker is \<open>page.wait_for_selector\<close>
  for a timing rule, \<open>data-testid\<close> for a selector rule and \<open>retry\<close> in any letter case
  for a network rule. Hence, on every text, applying a rule to its own result gives that
  result again.
\<close>

theorem apply_rule_idempotent:
  "(pattern r1 = ''timing_issue'' \<and> py_in ''page.wait_for_selector'' c1
      \<longrightarrow> apply_rule_to_content c1 r1 = (c1, False))
   \<and> (pattern r2 = ''element_selector'' \<and> py_in ''data-testid'' c2
      \<longrightarrow> apply_rule_to_content c2 r2 = (c2, False))
   \<and> (pattern r3 = ''network_issue'' \<and> py_in w c3 \<and> lower w = ''retry''
      \<longrightarrow> apply_rule_to_content c3 r3 = (c3, False))
   \<and> fst (apply_rule_to_content (fst (apply_rule_to_content content rule)) rule)
       = fst (apply_rule_to_content content rule)"
proof -
  have net: "apply_rule_to_content c3 r3 = (c3, False)"
    if h: "pattern r3 = ''network_issue'' \<and> py_in w c3 \<and> lower w = ''retry''"
  proof -
    from h have "sublist w c3"
      by (simp add: py_in_sublist)
    then have "sublist (lower w) (lower c3)"
      by (rule sublist_lower)
    with h have "py_in ''retry'' (lower c3)"
      by (simp add: py_in_sublist)
    with h show ?thesis
      by (simp add: apply_rule_to_content_def)
  qed
  have tim: "pattern r1 = ''timing_issue'' \<and> py_in ''page.wait_for_selector'' c1
      \<longrightarrow> apply_rule_to_content c1 r1 = (c1, False)"
    by (simp add: apply_rule_to_content_def)
  have sel: "pattern r2 = ''element_selector'' \<and> py_in ''data-testid'' c2
      \<longrightarrow> apply_rule_to_content c2 r2 = (c2, False)"
    by (simp add: apply_rule_to_content_def)
  from tim sel net apply_rule_twice [of content rule] show ?thesis
    by blast
qed

theorem apply_rule_idempotent_witness:
  "pattern (rule_of_kind ''timing_issue'') = ''timing_issue''
   \<and> py_in ''page.wait_for_selector'' ''page.wait_for_selector(s); page.click(s)''
   \<and> apply_rule_to_content ''page.wait_for_selector(s); page.click(s)''
         (rule_of_kind ''timing_issue'')
       = (''page.wait_for_selector(s); page.click(s)'', False)
   \<and> pattern (rule_of_kind ''element_selector'') = ''element_selector''
   \<and> py_in ''data-testid'' ''find([data-testid=buy])''
   \<and> apply_rule_to_content ''find([data-testid=buy])'' (rule_of_kind ''element_selector'')
       = (''find([data-testid=buy])'', False)
   \<and> pattern (rule_of_kind ''network_issue'') = ''network_issue''
   \<and> py_in ''Retry'' ''requests.get(u, Retry(3))'' \<and> lower ''Retry'' = ''retry''
   \<and> apply_rule_to_content ''requests.get(u, Retry(3))'' (rule_of_kind ''network_issue'')
       = (''requests.get(u, Retry(3))'', False)
   \<and> fst (apply_rule_to_content
            (fst (apply_rule_to_content ''page.click(s)'' (rule_of_kind ''timing_issue'')))
            (rule_of_kind ''timing_issue''))
       = ''page.wait_for_selector(selector, timeout=30000)'' @ [CHR 0x0A]
           @ ''        page.click(s)''"
proof -
  have p: "pattern (rule_of_kind ''timing_issue'') = ''timing_issue''"
    "pattern (rule_of_kind ''element_selector'') = ''element_selector''"
    "pattern (rule_of_kind ''network_issue'') = ''network_issue''"
    by (simp_all add: rule_of_kind_def)
  have m: "py_in ''page.wait_for_selector'' ''page.wait_for_selector(s); page.click(s)''"
    "py_in ''data-testid'' ''find([data-testid=buy])''"
    "py_in ''Retry'' ''requests.get(u, Retry(3))''"
    by simp_all
  have l: "lower ''Retry'' = ''retry''"
    by (simp add: lower_def lower_char_def)
  have once: "fst (apply_rule_to_content ''page.click(s)'' (rule_of_kind ''timing_issue''))
       = ''page.wait_for_selector(selector, timeout=30000)'' @ [CHR 0x0A]
           @ ''        page.click(s)''"
    by (simp add: apply_rule_to_content_def rule_of_kind_def wait_then_click_def)
  from apply_rule_idempotent
    [of "rule_of_kind ''timing_issue''" "''page.wait_for_selector(s); page.click(s)''"
        "rule_of_kind ''element_selector''" "''find([data-testid=buy])''"
        "rule_of_kind ''network_issue''" "''Retry''" "''requests.get(u, Retry(3))''"
        "''page.click(s)''" "rule_of_kind ''timing_issue''"]
    p m l once
  show ?thesis
    by metis
qed

section \<open>The timing transform\<close>

lemma str_replace_single:
  assumes "\<not> sublist (a # old) (pre @ butlast (a # old))"
    and "\<not> sublist (a # old) post"
  shows "str_replace (a # old) new (pre @ (a # old) @ post) = pre @ new @ post"
  using assms(1)
proof (induction pre)
  case Nil
  have "str_replace (a # old) new ((a # old) @ post)
          = new @ str_replace (a # old) new post"
    by simp
  with assms(2) show ?case
    by (simp add: str_replace_absent del: str_replace.simps)
next
  case (Cons c pre)
  have no_prefix: "\<not> prefix (a # old) (c # pre @ (a # old) @ post)"
  proof
    assume p: "prefix (a # old) (c # pre @ (a # old) @ post)"
    have split: "c # pre @ (a # old) @ post
                   = ((c # pre) @ butlast (a # old)) @ (last (a # old) # post)"
      by (simp del: butlast.simps last.simps
          add: append_butlast_last_id [of "a # old", symmetric, simplified])
    have "prefix ((c # pre) @ butlast (a # old)) (c # pre @ (a # old) @ post)"
      unfolding split by (rule prefixI) simp
    with p have "prefix (a # old) ((c # pre) @ butlast (a # old))"
      by (rule prefix_length_prefix) simp
    then have "sublist (a # old) ((c # pre) @ butlast (a # old))"
      by (rule prefix_imp_sublist)
    with Cons.prems show False
      by simp
  qed
  from Cons.prems have "\<not> sublist (a # old) (pre @ butlast (a # old))"
    by (simp add: sublist_Cons_right del: Cons_prefix_Cons butlast.simps)
  then have "str_replace (a # old) new (pre @ (a # old) @ post) = pre @ new @ post"
    by (rule Cons.IH)
  with no_prefix show ?case
    by (simp del: Cons_prefix_Cons)
qed

lemma timing_rule_wraps_page_click:
  assumes "pattern rule = ''timing_issue''"
    and "content = pre @ ''page.click('' @ post"
    and "\<not> sublist ''page.click('' (pre @ ''page.click'')"
    and "\<not> sublist ''page.click('' post"
    and "\<not> py_in ''page.wait_for_selector'' content"
  shows "apply_rule_to_content content rule = (pre @ wait_then_click @ post, True)"
proof -
  have "sublist ''click('' ''page.click(''"
    by (simp add: py_in_sublist [symmetric])
  moreover have "sublist ''page.click('' content"
    unfolding assms(2) by (rule sublist_appendI)
  ultimately have c: "py_in ''click('' content"
    unfolding py_in_sublist by (rule sublist_trans_app)
  from assms(3) have "\<not> sublist ''page.click('' (pre @ butlast ''page.click('')"
    by simp
  from str_replace_single [OF this assms(4)]
  have "str_replace ''page.click('' wait_then_click content = pre @ wait_then_click @ post"
    unfolding assms(2) .
  with assms(1,5) c show ?thesis
    by (simp add: apply_rule_to_content_def)
qed

text \<open>
  C8 asks for one injected wait before the one click invocation of a text without a
  wait. The guard of the transform looks for \<open>click(\<close>, the replacement for
  \<open>page.click(\<close>: a text whose only click is a method call on another object passes
  the guard, comes back unchanged, with no wait, and is reported as applied.
\<close>

theorem timing_rule_misses_method_click:
  "py_in ''click('' ''await button.click()''
   \<and> \<not> py_in ''page.wait_for_selector'' ''await button.click()''
   \<and> apply_rule_to_content ''await button.click()'' (rule_of_kind ''timing_issue'')
       = (''await button.click()'', True)"
  by (simp add: apply_rule_to_content_def rule_of_kind_def)

section \<open>Insight ranking\<close>

lemma rank_insights_sorted:
  "sorted (map insight_key (rev (rank_insights insights)))
   \<and> set (rank_insights insights) = set insights
   \<and> length (rank_insights insights) = length insights"
  by (simp add: rank_insights_def sort_reverse_def)

text \<open>
  C3 asks for confidence descending within one severity. The key of line 130 negates
  the confidence and the sort is reversed, so within one severity the ranking puts the
  lower confidence first: the two medium insights of confidence 0.9 and 0.8, generated
  in that order, come out as 0.8 then 0.9.
\<close>

theorem rank_insights_confidence_ascending:
  "severity low_pass_rate_insight = severity slow_execution_insight
   \<and> insight_confidence low_pass_rate_insight = 9 / 10
   \<and> insight_confidence slow_execution_insight = 8 / 10
   \<and> rank_insights [low_pass_rate_insight, slow_execution_insight]
       = [slow_execution_insight, low_pass_rate_insight]"
  by (simp add: rank_insights_def sort_reverse_def insight_key_def severity_score_def
      low_pass_rate_insight_def slow_execution_insight_def)

section \<open>Flaky-test detection\<close>

lemma group_append_lookup:
  "map_of (group_append d k v) k' =
     (if k' = k then Some ((case map_of d k of None \<Rightarrow> [] | Some vs \<Rightarrow> vs) @ [v])
      else map_of d k')"
  by (induction d k v rule: group_append.induct) auto

lemma foldl_group_append_lookup:
  "map_of (foldl (\<lambda>d x. group_append d (kf x) (vf x)) d xs) k =
     (if filter (\<lambda>x. kf x = k) xs = [] then map_of d k
      else Some ((case map_of d k of None \<Rightarrow> [] | Some vs \<Rightarrow> vs)
                   @ map vf (filter (\<lambda>x. kf x = k) xs)))"
proof (induction xs arbitrary: d)
  case Nil
  then show ?case by simp
next
  case (Cons x xs)
  show ?case
    by (simp add: Cons.IH group_append_lookup)
qed

lemma foldl_group_append_distinct:
  "distinct (map fst d) \<Longrightarrow>
   distinct (map fst (foldl (\<lambda>d x. group_append d (kf x) (vf x)) d xs))"
  by (induction xs arbitrary: d) (simp_all add: group_append_distinct)

lemma test_outcomes_entry:
  "((name, outcomes) \<in> set (test_outcomes h))
     = (outcomes = recorded_outcomes h name \<and> outcomes \<noteq> [])"
proof -
  have d: "distinct (map fst (test_outcomes h))"
    unfolding test_outcomes_def by (rule foldl_group_append_distinct) simp
  have "map_of (test_outcomes h) name =
          (if recorded_outcomes h name = [] then None else Some (recorded_outcomes h name))"
    unfolding test_outcomes_def recorded_outcomes_def
    by (simp add: foldl_group_append_lookup)
  with map_of_eq_Some_iff [OF d, of name outcomes] show ?thesis
    by (auto split: if_splits)
qed

lemma set_map_filter_iff:
  "(y \<in> set (List.map_filter f xs)) = (\<exists>x \<in> set xs. f x = Some y)"
  by (induction xs) (auto split: option.splits)

lemma flaky_tests_member:
  "(name \<in> fst ` set (flaky_tests h))
     = (\<exists>outcomes. (name, outcomes) \<in> set (test_outcomes h)
          \<and> flaky_entry (name, outcomes) \<noteq> None)"
proof
  assume "name \<in> fst ` set (flaky_tests h)"
  then obtain score outs where "(name, score, outs) \<in> set (flaky_tests h)"
    by auto
  then obtain entry where e: "entry \<in> set (test_outcomes h)"
    "flaky_entry entry = Some (name, score, outs)"
    by (auto simp add: flaky_tests_def set_map_filter_iff)
  obtain n' outs' where entry: "entry = (n', outs')"
    by (cases entry)
  with e(2) have "n' = name"
    by (auto simp add: flaky_entry_def Let_def split: if_splits)
  with e entry show "\<exists>outcomes. (name, outcomes) \<in> set (test_outcomes h)
          \<and> flaky_entry (name, outcomes) \<noteq> None"
    by auto
next
  assume "\<exists>outcomes. (name, outcomes) \<in> set (test_outcomes h)
          \<and> flaky_entry (name, outcomes) \<noteq> None"
  then obtain outcomes res where o: "(name, outcomes) \<in> set (test_outcomes h)"
    "flaky_entry (name, outcomes) = Some res"
    by auto
  then have "fst res = name"
    by (auto simp add: flaky_entry_def Let_def split: if_splits)
  moreover from o have "res \<in> set (flaky_tests h)"
    by (auto simp add: flaky_tests_def set_map_filter_iff)
  ultimately show "name \<in> fst ` set (flaky_tests h)"
    by force
qed

text \<open>
  C9. Over the last 20 runs a test is flagged flaky exactly when it has at least 5
  recorded outcomes, at least one pass and one fail among them, and the smaller of the
  pass and fail counts is at least a fifth of the number of outcomes. The outcomes
  pass, pass, fail, pass, fail are flagged with ratio 2/5, and the boundary case
  pass, pass, pass, pass, fail is flagged with ratio exactly 1/5.
\<close>

theorem flaky_detection_exact:
  "(name \<in> fst ` set (flaky_tests h))
     = (let outcomes = recorded_outcomes h name;
            pass_count = count_list outcomes ''passed'';
            fail_count = count_list outcomes ''failed''
        in 5 \<le> length outcomes \<and> 0 < pass_count \<and> 0 < fail_count
           \<and> (1 / 5 :: rat) \<le> of_nat (min pass_count fail_count) / of_nat (length outcomes))
   \<and> flaky_tests (map (run_of ''test_login'')
          [''passed'', ''passed'', ''failed'', ''passed'', ''failed''])
       = [(''test_login'', 2 / 5, [''passed'', ''passed'', ''failed'', ''passed'', ''failed''])]
   \<and> flaky_tests (map (run_of ''test_login'')
          [''passed'', ''passed'', ''passed'', ''passed'', ''failed''])
       = [(''test_login'', 1 / 5, [''passed'', ''passed'', ''passed'', ''passed'', ''failed''])]"
proof (intro conjI)
  show "(name \<in> fst ` set (flaky_tests h))
     = (let outcomes = recorded_outcomes h name;
            pass_count = count_list outcomes ''passed'';
            fail_count = count_list outcomes ''failed''
        in 5 \<le> length outcomes \<and> 0 < pass_count \<and> 0 < fail_count
           \<and> (1 / 5 :: rat) \<le> of_nat (min pass_count fail_count) / of_nat (length outcomes))"
    unfolding flaky_tests_member test_outcomes_entry
    by (auto simp add: flaky_entry_def Let_def)
next
  show "flaky_tests (map (run_of ''test_login'')
          [''passed'', ''passed'', ''failed'', ''passed'', ''failed''])
       = [(''test_login'', 2 / 5, [''passed'', ''passed'', ''failed'', ''passed'', ''failed''])]"
    by (simp add: flaky_tests_def test_outcomes_def last_n_def run_of_def dict_get_def
        flaky_entry_def List.map_filter_simps)
next
  show "flaky_tests (map (run_of ''test_login'')
          [''passed'', ''passed'', ''passed'', ''passed'', ''failed''])
       = [(''test_login'', 1 / 5, [''passed'', ''passed'', ''passed'', ''passed'', ''failed''])]"
    by (simp add: flaky_tests_def test_outcomes_def last_n_def run_of_def dict_get_def
        flaky_entry_def List.map_filter_simps)
qed

end
